theory Spec2Isabelle
  imports Complex_Main "HOL-Library.AList" "HOL-Library.Sublist"
begin

section \<open>Data model (pages/index.tsx)\<close>

text \<open>
  The interfaces of \<^verbatim>\<open>pages/index.tsx\<close>. A field of a record is a global constant,
  so the fields carry a short prefix of their interface (\<open>p_\<close> for \<^verbatim>\<open>Person\<close>,
  \<open>nn_\<close> for \<^verbatim>\<open>NewNodeInput\<close>). The optional numbers \<^verbatim>\<open>x?\<close>, \<^verbatim>\<open>y?\<close> are
  \<open>real option\<close>, \<open>None\<close> for \<^verbatim>\<open>undefined\<close>. Coordinates are mathematical reals:
  the rounding of IEEE doubles is not modelled.
\<close>

record Person =
  p_id :: string
  p_name :: string
  p_status :: string
  p_starred :: bool
  p_team :: string
  p_notes :: string
  p_x :: "real option"
  p_y :: "real option"

record Link =
  source :: string
  target :: string

record DataStructure =
  d_nodes :: "Person list"
  d_links :: "Link list"

record NewNodeInput =
  nn_name :: string
  nn_status :: string
  nn_starred :: bool
  nn_team :: string

text \<open>
  The state of the component \<^verbatim>\<open>Home\<close>: one field for each \<^verbatim>\<open>useState\<close> hook that the
  repository operations, the filter or the layout read or write. The field \<open>posted\<close>
  is the sequence of payloads that \<^verbatim>\<open>saveData\<close> has sent to \<^verbatim>\<open>POST /api/data\<close>.
\<close>

record Home =
  nodes :: "Person list"
  links :: "Link list"
  newNode :: NewNodeInput
  connection :: string
  filterStatus :: string
  filterStarred :: bool
  filterTeam :: string
  teamOption :: string
  selectedPerson :: "Person option"
  childName :: string
  childStatus :: string
  childStarred :: bool
  posted :: "DataStructure list"

section \<open>Number to string\<close>

text \<open>
  \<^verbatim>\<open>(nodes.length + 1).toString()\<close>: the decimal digits of a natural number, most
  significant first, without leading zeros.
\<close>

definition digit :: "nat \<Rightarrow> char" where
  "digit d = ''0123456789'' ! d"

function toString :: "nat \<Rightarrow> string" where
  "toString n = (if n < 10 then [digit n] else toString (n div 10) @ [digit (n mod 10)])"
  by pat_completeness auto
termination
  by (relation "measure (\<lambda>n. n)") auto

declare toString.simps [simp del]

section \<open>Graph repository operations\<close>

definition saveData :: "Person list \<Rightarrow> Link list \<Rightarrow> Home \<Rightarrow> Home" where
  "saveData updatedNodes updatedLinks s =
     s\<lparr>posted := posted s @ [\<lparr>d_nodes = updatedNodes, d_links = updatedLinks\<rparr>]\<rparr>"

text \<open>
  \<^verbatim>\<open>addNode\<close>: the empty string is the only falsy string, so \<^verbatim>\<open>!newNode.name\<close> is
  \<open>nn_name (newNode s) = []\<close> and \<^verbatim>\<open>if (connection)\<close> is \<open>connection s \<noteq> []\<close>.
\<close>

definition addNode :: "Home \<Rightarrow> Home" where
  "addNode s =
     (if nn_name (newNode s) = [] then s
      else
        let ident = toString (length (nodes s) + 1);
            nodeToAdd = \<lparr>p_id = ident, p_name = nn_name (newNode s),
                         p_status = nn_status (newNode s), p_starred = nn_starred (newNode s),
                         p_team = nn_team (newNode s), p_notes = [],
                         p_x = None, p_y = None\<rparr>;
            updatedNodes = nodes s @ [nodeToAdd];
            updatedLinks = (if connection s \<noteq> []
                            then links s @ [\<lparr>source = connection s, target = ident\<rparr>]
                            else links s)
        in saveData updatedNodes updatedLinks
             (s\<lparr>nodes := updatedNodes, links := updatedLinks,
                newNode := \<lparr>nn_name = [], nn_status = ''To do'', nn_starred = False, nn_team = []\<rparr>,
                teamOption := [], connection := []\<rparr>))"

definition updatePerson :: "Home \<Rightarrow> Home" where
  "updatePerson s =
     (case selectedPerson s of
        None \<Rightarrow> s
      | Some sel \<Rightarrow>
          let updatedNodes = map (\<lambda>node. if p_id node = p_id sel then sel else node) (nodes s)
          in (saveData updatedNodes (links s) (s\<lparr>nodes := updatedNodes\<rparr>))\<lparr>selectedPerson := None\<rparr>)"

definition addChildPerson :: "Home \<Rightarrow> Home" where
  "addChildPerson s =
     (case selectedPerson s of
        None \<Rightarrow> s
      | Some sel \<Rightarrow>
          if childName s = [] then s
          else
            let ident = toString (length (nodes s) + 1);
                newChild = \<lparr>p_id = ident, p_name = childName s, p_status = childStatus s,
                            p_starred = childStarred s, p_team = [], p_notes = [],
                            p_x = None, p_y = None\<rparr>;
                updatedNodes = nodes s @ [newChild];
                updatedLinks = links s @ [\<lparr>source = p_id sel, target = ident\<rparr>]
            in saveData updatedNodes updatedLinks
                 (s\<lparr>nodes := updatedNodes, links := updatedLinks,
                    childName := [], childStatus := ''To do'', childStarred := False\<rparr>))"

definition deletePerson :: "Home \<Rightarrow> Home" where
  "deletePerson s =
     (case selectedPerson s of
        None \<Rightarrow> s
      | Some sel \<Rightarrow>
          let updatedNodes = filter (\<lambda>n. p_id n \<noteq> p_id sel) (nodes s);
              updatedLinks = filter (\<lambda>l. source l \<noteq> p_id sel \<and> target l \<noteq> p_id sel) (links s)
          in saveData updatedNodes updatedLinks
               (s\<lparr>nodes := updatedNodes, links := updatedLinks, selectedPerson := None\<rparr>))"

text \<open>
  \<^verbatim>\<open>handleNodeClick\<close>: clicking a person node selects a copy of it and resets the child
  form; a team node, or an id that no person has, selects nothing.
\<close>

definition handleNodeClick :: "string \<Rightarrow> Home \<Rightarrow> Home" where
  "handleNodeClick nodeId s =
     (if prefix ''team_'' nodeId then s
      else case find (\<lambda>node. p_id node = nodeId) (nodes s) of
             None \<Rightarrow> s
           | Some person \<Rightarrow>
               s\<lparr>selectedPerson := Some person, childName := [],
                 childStatus := ''To do'', childStarred := False\<rparr>)"

section \<open>Filtering\<close>

definition filteredNodes :: "Home \<Rightarrow> Person list" where
  "filteredNodes s =
     filter (\<lambda>node.
        let statusMatch = (if filterStatus s \<noteq> [] then p_status node = filterStatus s else True);
            starredMatch = (if filterStarred s then p_starred node = True else True);
            teamMatch = (if filterTeam s \<noteq> [] then p_team node = filterTeam s else True)
        in statusMatch \<and> starredMatch \<and> teamMatch) (nodes s)"

definition filteredNodeIds :: "Home \<Rightarrow> string set" where
  "filteredNodeIds s = set (map p_id (filteredNodes s))"

definition filteredLinks :: "Home \<Rightarrow> Link list" where
  "filteredLinks s =
     filter (\<lambda>link. source link \<in> filteredNodeIds s \<and> target link \<in> filteredNodeIds s) (links s)"

section \<open>Team layout\<close>

record TeamNode =
  t_id :: string
  t_label :: string

text \<open>
  \<^verbatim>\<open>teamNodesMap\<close> is a JavaScript \<^verbatim>\<open>Map\<close>, which iterates in insertion order: an
  association list, with \<open>AList.update\<close> for \<^verbatim>\<open>set\<close> (a new key goes to the end, an
  old key keeps its place), \<open>map_of\<close> for \<^verbatim>\<open>get\<close> and \<open>has\<close> for \<^verbatim>\<open>has\<close>.
\<close>

definition has :: "('k \<times> 'v) list \<Rightarrow> 'k \<Rightarrow> bool" where
  "has m k = (map_of m k \<noteq> None)"

definition teamStep :: "Person \<Rightarrow> (string \<times> TeamNode) list \<Rightarrow> (string \<times> TeamNode) list" where
  "teamStep node m =
     (if p_team node \<noteq> [] then
        (if \<not> has m (p_team node)
         then AList.update (p_team node)
                \<lparr>t_id = ''team_'' @ p_team node, t_label = p_team node\<rparr> m
         else m)
      else m)"

definition teamNodesMap :: "Home \<Rightarrow> (string \<times> TeamNode) list" where
  "teamNodesMap s = fold teamStep (filteredNodes s) []"

definition yPositions :: "real list" where
  "yPositions = [50, 450, 850]"

definition teamNodesArray :: "Home \<Rightarrow> TeamNode list" where
  "teamNodesArray s = map snd (teamNodesMap s)"

definition TEAMS_IN_A_ROW :: nat where
  "TEAMS_IN_A_ROW = 3"

text \<open>
  Reading an array past its end gives \<^verbatim>\<open>undefined\<close>, and \<^verbatim>\<open>v || 0\<close> is \<open>0\<close> for
  \<^verbatim>\<open>undefined\<close> and for the falsy number \<open>0\<close>.
\<close>

definition at_index :: "'a list \<Rightarrow> nat \<Rightarrow> 'a option" where
  "at_index xs i = (if i < length xs then Some (xs ! i) else None)"

definition or_number :: "real option \<Rightarrow> real \<Rightarrow> real" where
  "or_number v d = (case v of None \<Rightarrow> d | Some a \<Rightarrow> if a = 0 then d else a)"

record PinnedTeamNode =
  tn_id :: string
  tn_label :: string
  tn_color :: string
  tn_size :: real
  tn_fx :: real
  tn_fy :: real
  tn_static :: bool

definition pinnedTeamNodes :: "Home \<Rightarrow> PinnedTeamNode list" where
  "pinnedTeamNodes s =
     map (\<lambda>(index, teamNode).
        let row = index div TEAMS_IN_A_ROW
        in \<lparr>tn_id = t_id teamNode, tn_label = t_label teamNode,
            tn_color = ''#9b59b6'', tn_size = 600,
            tn_fx = real ((index mod TEAMS_IN_A_ROW + 1) * 800),
            tn_fy = or_number (at_index yPositions row) 0,
            tn_static = True\<rparr>) (enumerate 0 (teamNodesArray s))"

definition teamLinks :: "Home \<Rightarrow> Link list" where
  "teamLinks s =
     map (\<lambda>node. \<lparr>source = ''team_'' @ p_team node, target = p_id node\<rparr>)
       (filter (\<lambda>node. p_team node \<noteq> []) (filteredNodes s))"

definition teamPositions :: "Home \<Rightarrow> (string \<times> real \<times> real) list" where
  "teamPositions s =
     fold (\<lambda>teamNode m. AList.update (tn_label teamNode) (tn_fx teamNode, tn_fy teamNode) m)
       (pinnedTeamNodes s) []"

subsection \<open>Person nodes\<close>

record PersonNode =
  pn_id :: string
  pn_label :: string
  pn_color :: "string option"
  pn_opacity :: real
  pn_x :: real
  pn_y :: real

text \<open>
  The table \<^verbatim>\<open>statusColors\<close>; a status outside the table reads as \<^verbatim>\<open>undefined\<close>, here
  \<open>None\<close> (the properties every JavaScript object inherits are not modelled).
\<close>

definition statusColors :: "(string \<times> string) list" where
  "statusColors =
     [(''To do'', ''#3498db''), (''Interview'', ''#e67e22''),
      (''CEO'', ''#2ecc71''), (''Rejected'', ''#e74c3c'')]"

text \<open>The star glyph U+2B50 of the label, as its three UTF-8 bytes.\<close>

definition star :: string where
  "star = [CHR 0xE2, CHR 0xAD, CHR 0x90]"

definition nodeLabel :: "Person \<Rightarrow> string" where
  "nodeLabel node = (if p_starred node then p_name node @ '' '' @ star else p_name node)"

text \<open>The object pushed for a node with no team or no team position.\<close>

definition storedNode :: "Person \<Rightarrow> PersonNode" where
  "storedNode node =
     \<lparr>pn_id = p_id node, pn_label = nodeLabel node,
      pn_color = map_of statusColors (p_status node),
      pn_opacity = (if p_status node = ''Rejected'' then 0.4 else 1),
      pn_x = (case p_x node of Some v \<Rightarrow> v | None \<Rightarrow> 0),
      pn_y = (case p_y node of Some v \<Rightarrow> v | None \<Rightarrow> 0)\<rparr>"

text \<open>
  The first \<^verbatim>\<open>filteredNodes.forEach\<close>: a node whose team has a position joins its
  team's group (created empty at its first member), every other node is pushed to
  \<^verbatim>\<open>graphPersonNodes\<close> at once. The state of the loop is the pair of
  \<^verbatim>\<open>graphPersonNodes\<close> and \<^verbatim>\<open>teamGroups\<close>.
\<close>

definition groupStep ::
  "(string \<times> real \<times> real) list \<Rightarrow> Person \<Rightarrow>
   PersonNode list \<times> (string \<times> Person list) list \<Rightarrow>
   PersonNode list \<times> (string \<times> Person list) list" where
  "groupStep tp node acc =
     (case acc of (gpn, tg) \<Rightarrow>
        if p_team node \<noteq> [] \<and> has tp (p_team node) then
          (let tg' = (if \<not> has tg (p_team node)
                      then AList.update (p_team node) [] tg else tg)
           in (gpn, AList.map_entry (p_team node) (\<lambda>members. members @ [node]) tg'))
        else (gpn @ [storedNode node], tg))"

definition grouped :: "Home \<Rightarrow> PersonNode list \<times> (string \<times> Person list) list" where
  "grouped s = fold (groupStep (teamPositions s)) (filteredNodes s) ([], [])"

definition teamGroups :: "Home \<Rightarrow> (string \<times> Person list) list" where
  "teamGroups s = snd (grouped s)"

definition radius :: real where
  "radius = 200"

definition circleNode :: "real \<times> real \<Rightarrow> nat \<Rightarrow> nat \<times> Person \<Rightarrow> PersonNode" where
  "circleNode teamPos numNodes ip =
     (case ip of (i, node) \<Rightarrow>
        let angle = (2 * pi * real i) / real numNodes
        in \<lparr>pn_id = p_id node, pn_label = nodeLabel node,
            pn_color = map_of statusColors (p_status node),
            pn_opacity = (if p_status node = ''Rejected'' then 0.4 else 1),
            pn_x = fst teamPos + radius * cos angle,
            pn_y = snd teamPos + radius * sin angle\<rparr>)"

datatype error = TypeError | SyntaxError

text \<open>
  \<^verbatim>\<open>teamGroups.forEach\<close>: \<^verbatim>\<open>teamPositions.get(teamName)!\<close> is \<^verbatim>\<open>undefined\<close> for a team
  without a position, and reading \<^verbatim>\<open>teamPos.x\<close> then throws a \<^verbatim>\<open>TypeError\<close>.
\<close>

fun placeGroups ::
  "(string \<times> real \<times> real) list \<Rightarrow> (string \<times> Person list) list \<Rightarrow>
   PersonNode list \<Rightarrow> error + PersonNode list" where
  "placeGroups tp [] gpn = Inr gpn"
| "placeGroups tp ((teamName, nodesInTeam) # rest) gpn =
     (case map_of tp teamName of
        None \<Rightarrow> Inl TypeError
      | Some teamPos \<Rightarrow>
          placeGroups tp rest
            (gpn @ map (circleNode teamPos (length nodesInTeam)) (enumerate 0 nodesInTeam)))"

definition graphPersonNodes :: "Home \<Rightarrow> error + PersonNode list" where
  "graphPersonNodes s = placeGroups (teamPositions s) (teamGroups s) (fst (grouped s))"

subsection \<open>The merged graph and its React Flow form\<close>

datatype GraphNode = PersonG PersonNode | TeamG PinnedTeamNode

text \<open>Property reads on the untyped graph nodes: a missing property is \<open>None\<close>.\<close>

fun node_id :: "GraphNode \<Rightarrow> string" where
  "node_id (PersonG n) = pn_id n"
| "node_id (TeamG t) = tn_id t"

fun node_label :: "GraphNode \<Rightarrow> string" where
  "node_label (PersonG n) = pn_label n"
| "node_label (TeamG t) = tn_label t"

fun node_color :: "GraphNode \<Rightarrow> string option" where
  "node_color (PersonG n) = pn_color n"
| "node_color (TeamG t) = Some (tn_color t)"

fun node_opacity :: "GraphNode \<Rightarrow> real option" where
  "node_opacity (PersonG n) = Some (pn_opacity n)"
| "node_opacity (TeamG t) = None"

fun node_x :: "GraphNode \<Rightarrow> real option" where
  "node_x (PersonG n) = Some (pn_x n)"
| "node_x (TeamG t) = None"

fun node_y :: "GraphNode \<Rightarrow> real option" where
  "node_y (PersonG n) = Some (pn_y n)"
| "node_y (TeamG t) = None"

fun node_fx :: "GraphNode \<Rightarrow> real option" where
  "node_fx (PersonG n) = None"
| "node_fx (TeamG t) = Some (tn_fx t)"

fun node_fy :: "GraphNode \<Rightarrow> real option" where
  "node_fy (PersonG n) = None"
| "node_fy (TeamG t) = Some (tn_fy t)"

definition graphNodes :: "Home \<Rightarrow> error + GraphNode list" where
  "graphNodes s =
     (case graphPersonNodes s of
        Inl e \<Rightarrow> Inl e
      | Inr gpn \<Rightarrow> Inr (map PersonG gpn @ map TeamG (pinnedTeamNodes s)))"

definition graphLinks :: "Home \<Rightarrow> Link list" where
  "graphLinks s = filteredLinks s @ teamLinks s"

record RFNode =
  rf_id :: string
  rf_position :: "real \<times> real"
  rf_label :: string
  rf_background :: "string option"
  rf_opacity :: "real option"
  rf_draggable :: bool

definition rfNode :: "GraphNode \<Rightarrow> RFNode" where
  "rfNode node =
     (let x = (case node_x node of Some v \<Rightarrow> v
               | None \<Rightarrow> (case node_fx node of Some v \<Rightarrow> v | None \<Rightarrow> 0));
          y = (case node_y node of Some v \<Rightarrow> v
               | None \<Rightarrow> (case node_fy node of Some v \<Rightarrow> v | None \<Rightarrow> 0))
      in \<lparr>rf_id = node_id node, rf_position = (x, y), rf_label = node_label node,
          rf_background = node_color node, rf_opacity = node_opacity node,
          rf_draggable = (\<not> prefix ''team_'' (node_id node))\<rparr>)"

definition rfNodes :: "Home \<Rightarrow> error + RFNode list" where
  "rfNodes s = (case graphNodes s of Inl e \<Rightarrow> Inl e | Inr gn \<Rightarrow> Inr (map rfNode gn))"

section \<open>Persistence endpoint (pages/api/data.ts)\<close>

subsection \<open>JavaScript values and JSON texts\<close>

text \<open>
  The handler passes \<^verbatim>\<open>req.body\<close> to \<^verbatim>\<open>JSON.stringify\<close> and the text of the file to
  \<^verbatim>\<open>JSON.parse\<close>. Both belong to the runtime (ECMA-262, 25.5); they are modelled here on
  the plain data values a parsed body or a document consists of.

  A number is a finite value (a real: the rounding of doubles is not modelled, and
  \<open>-0\<close> is \<open>0\<close>), one of the two infinities or \<^verbatim>\<open>NaN\<close>. An object is the map of its own
  properties; the order of the properties is not modelled.
\<close>

datatype number = Finite real | PosInfinity | NegInfinity | NaN

datatype jsval =
  JUndefined | JNull | JBoolean bool | JNumber number | JString string
  | JArray "jsval list" | JObject "string \<Rightarrow> jsval option"

text \<open>
  A JSON text is modelled by its syntax tree: white space, the order of the members of an
  object and the spelling of strings and numbers are left out, and a member name occurs
  once. A number token stands for the number \<^verbatim>\<open>JSON.parse\<close> reads from it: a finite
  value, or an infinity for a literal beyond the range of doubles, such as \<^verbatim>\<open>1e400\<close>.
  No token reads as \<^verbatim>\<open>NaN\<close>.
\<close>

datatype literal = Reads real | ReadsPosInfinity | ReadsNegInfinity

datatype jtext =
  TNull | TBool bool | TNum literal | TStr string
  | TArr "jtext list" | TObj "string \<Rightarrow> jtext option"

fun literal_value :: "literal \<Rightarrow> number" where
  "literal_value (Reads r) = Finite r"
| "literal_value ReadsPosInfinity = PosInfinity"
| "literal_value ReadsNegInfinity = NegInfinity"

text \<open>\<^verbatim>\<open>JSON.parse\<close> on a well-formed text.\<close>

primrec parse :: "jtext \<Rightarrow> jsval" where
  "parse TNull = JNull"
| "parse (TBool b) = JBoolean b"
| "parse (TNum l) = JNumber (literal_value l)"
| "parse (TStr s) = JString s"
| "parse (TArr ts) = JArray (map parse ts)"
| "parse (TObj ms) = JObject (map_option parse \<circ> ms)"

text \<open>
  \<^verbatim>\<open>JSON.stringify\<close>: a finite number is written as a token that reads back as that
  number, every other number as \<^verbatim>\<open>null\<close>. The result for \<^verbatim>\<open>undefined\<close> is \<^verbatim>\<open>undefined\<close>
  (\<open>None\<close>); inside an array it is written as \<^verbatim>\<open>null\<close>, and a property whose value is
  \<^verbatim>\<open>undefined\<close> is left out of its object.
\<close>

fun number_text :: "number \<Rightarrow> jtext" where
  "number_text (Finite r) = TNum (Reads r)"
| "number_text PosInfinity = TNull"
| "number_text NegInfinity = TNull"
| "number_text NaN = TNull"

definition or_null :: "jtext option \<Rightarrow> jtext" where
  "or_null t = (case t of None \<Rightarrow> TNull | Some u \<Rightarrow> u)"

definition present :: "'a option option \<Rightarrow> 'a option" where
  "present p = (case p of None \<Rightarrow> None | Some t \<Rightarrow> t)"

primrec stringify :: "jsval \<Rightarrow> jtext option" where
  "stringify JUndefined = None"
| "stringify JNull = Some TNull"
| "stringify (JBoolean b) = Some (TBool b)"
| "stringify (JNumber n) = Some (number_text n)"
| "stringify (JString s) = Some (TStr s)"
| "stringify (JArray vs) = Some (TArr (map or_null (map stringify vs)))"
| "stringify (JObject ps) = Some (TObj (present \<circ> (map_option stringify \<circ> ps)))"

subsection \<open>The handler\<close>

text \<open>
  The file \<^verbatim>\<open>data.json\<close> is the only part of the file system the handler touches: \<open>None\<close>
  when it does not exist, otherwise a JSON text or a content that \<^verbatim>\<open>JSON.parse\<close> rejects
  with a \<^verbatim>\<open>SyntaxError\<close>. \<^verbatim>\<open>fs.writeFileSync\<close> throws a \<^verbatim>\<open>TypeError\<close> when
  \<^verbatim>\<open>JSON.stringify\<close> has returned \<^verbatim>\<open>undefined\<close>. The body of a response is the value
  handed to \<^verbatim>\<open>res.json\<close>, \<open>None\<close> after \<^verbatim>\<open>res.end()\<close>.
\<close>

datatype content = JSON jtext | NotJSON

record Request =
  req_method :: string
  req_body :: jsval

record Response =
  res_status :: nat
  res_body :: "jsval option"

definition emptyDocument :: jsval where
  "emptyDocument = JObject (map_of [(''nodes'', JArray []), (''links'', JArray [])])"

definition savedMessage :: jsval where
  "savedMessage = JObject (map_of [(''message'', JString ''Data saved'')])"

definition handler :: "Request \<Rightarrow> content option \<Rightarrow> error + (Response \<times> content option)" where
  "handler req file =
     (if req_method req = ''GET'' then
        (case file of
           Some data \<Rightarrow>
             (case data of
                JSON t \<Rightarrow> Inr (\<lparr>res_status = 200, res_body = Some (parse t)\<rparr>, file)
              | NotJSON \<Rightarrow> Inl SyntaxError)
         | None \<Rightarrow> Inr (\<lparr>res_status = 200, res_body = Some emptyDocument\<rparr>, file))
      else if req_method req = ''POST'' then
        (case stringify (req_body req) of
           None \<Rightarrow> Inl TypeError
         | Some t \<Rightarrow> Inr (\<lparr>res_status = 200, res_body = Some savedMessage\<rparr>, Some (JSON t)))
      else Inr (\<lparr>res_status = 405, res_body = None\<rparr>, file))"

text \<open>
  The two requests the client sends: \<^verbatim>\<open>saveData\<close> posts a document, \<^verbatim>\<open>loadData\<close> gets it.
  \<open>load_after_save\<close> is a GET that follows a POST with nothing in between: it answers
  from the file the POST has left.
\<close>

definition save_request :: "jsval \<Rightarrow> Request" where
  "save_request d = \<lparr>req_method = ''POST'', req_body = d\<rparr>"

definition load_request :: Request where
  "load_request = \<lparr>req_method = ''GET'', req_body = JUndefined\<rparr>"

definition load_after_save :: "jsval \<Rightarrow> content option \<Rightarrow> error + Response" where
  "load_after_save d file =
     (case handler (save_request d) file of
        Inl e \<Rightarrow> Inl e
      | Inr saved \<Rightarrow>
          (case handler load_request (snd saved) of
             Inl e \<Rightarrow> Inl e
           | Inr loaded \<Rightarrow> Inr (fst loaded)))"

subsection \<open>Documents as values\<close>

text \<open>
  The value of a document of the data model: a person is an object with its six fields,
  and with \<^verbatim>\<open>x\<close> and \<^verbatim>\<open>y\<close> where they are stored. The coordinates of the data model are
  reals, so these are the documents whose stored coordinates are finite numbers.
\<close>

definition coordinate :: "string \<Rightarrow> real option \<Rightarrow> (string \<times> jsval) list" where
  "coordinate k c = (case c of None \<Rightarrow> [] | Some r \<Rightarrow> [(k, JNumber (Finite r))])"

definition personValue :: "Person \<Rightarrow> jsval" where
  "personValue p =
     JObject (map_of
       ([(''id'', JString (p_id p)), (''name'', JString (p_name p)),
         (''status'', JString (p_status p)), (''starred'', JBoolean (p_starred p)),
         (''team'', JString (p_team p)), (''notes'', JString (p_notes p))]
        @ coordinate ''x'' (p_x p) @ coordinate ''y'' (p_y p)))"

definition linkValue :: "Link \<Rightarrow> jsval" where
  "linkValue l = JObject (map_of [(''source'', JString (source l)), (''target'', JString (target l))])"

definition documentValue :: "DataStructure \<Rightarrow> jsval" where
  "documentValue d =
     JObject (map_of [(''nodes'', JArray (map personValue (d_nodes d))),
                      (''links'', JArray (map linkValue (d_links d)))])"

text \<open>A value that \<^verbatim>\<open>JSON.stringify\<close> writes without loss: no \<^verbatim>\<open>undefined\<close>, finite numbers.\<close>

primrec json_safe :: "jsval \<Rightarrow> bool" where
  "json_safe JUndefined = False"
| "json_safe JNull = True"
| "json_safe (JBoolean b) = True"
| "json_safe (JNumber n) = (\<exists>r. n = Finite r)"
| "json_safe (JString s) = True"
| "json_safe (JArray vs) = (False \<notin> set (map json_safe vs))"
| "json_safe (JObject ps) = (Some False \<notin> range (map_option json_safe \<circ> ps))"

section \<open>Form input\<close>

text \<open>
  The initial state of the component (the arguments of its \<^verbatim>\<open>useState\<close> hooks) and the
  \<^verbatim>\<open>onChange\<close> handler of the name field, \<^verbatim>\<open>setNewNode({ ...newNode, name })\<close>.
\<close>

definition initialHome :: Home where
  "initialHome =
     \<lparr>nodes = [], links = [],
      newNode = \<lparr>nn_name = [], nn_status = ''To do'', nn_starred = False, nn_team = []\<rparr>,
      connection = [], filterStatus = [], filterStarred = False, filterTeam = [],
      teamOption = [], selectedPerson = None,
      childName = [], childStatus = ''To do'', childStarred = False, posted = []\<rparr>"

definition typeName :: "string \<Rightarrow> Home \<Rightarrow> Home" where
  "typeName v s = s\<lparr>newNode := (newNode s)\<lparr>nn_name := v\<rparr>\<rparr>"

section \<open>Specification-side definitions\<close>

text \<open>
  The distinct non-empty team names of the visible persons in first-seen order, as the
  specification words it: every name is kept at its first occurrence and dropped at the
  later ones.
\<close>

primrec spec_firstSeen :: "'a list \<Rightarrow> 'a list" where
  "spec_firstSeen [] = []"
| "spec_firstSeen (t # ts) = t # filter (\<lambda>u. u \<noteq> t) (spec_firstSeen ts)"

definition spec_distinctTeams :: "Person list \<Rightarrow> string list" where
  "spec_distinctTeams visible = spec_firstSeen (filter (\<lambda>t. t \<noteq> []) (map p_team visible))"

text \<open>The entry that \<^verbatim>\<open>teamNodesMap\<close> holds for a team name.\<close>

definition teamEntry :: "string \<Rightarrow> string \<times> TeamNode" where
  "teamEntry t = (t, \<lparr>t_id = ''team_'' @ t, t_label = t\<rparr>)"

section \<open>Example documents\<close>

definition person :: "string \<Rightarrow> string \<Rightarrow> string \<Rightarrow> bool \<Rightarrow> string \<Rightarrow> Person" where
  "person i n st sr tm =
     \<lparr>p_id = i, p_name = n, p_status = st, p_starred = sr, p_team = tm, p_notes = [],
      p_x = None, p_y = None\<rparr>"

text \<open>Three persons in a chain, the second one selected (the cascading-delete scenario).\<close>

definition chain :: Home where
  "chain =
     initialHome
       \<lparr>nodes := [person ''1'' ''Ada'' ''To do'' False [], person ''2'' ''Bob'' ''To do'' False [],
                 person ''3'' ''Cy'' ''To do'' False []],
        links := [\<lparr>source = ''1'', target = ''2''\<rparr>, \<lparr>source = ''2'', target = ''3''\<rparr>],
        selectedPerson := Some (person ''2'' ''Bob'' ''To do'' False [])\<rparr>"

text \<open>Two persons; the quick-edit modal holds an edited copy of the second.\<close>

definition editing :: Home where
  "editing =
     initialHome
       \<lparr>nodes := [person ''1'' ''Ada'' ''To do'' False [], person ''2'' ''Bob'' ''To do'' False []],
        links := [\<lparr>source = ''1'', target = ''2''\<rparr>],
        selectedPerson := Some (person ''2'' ''Bob'' ''CEO'' True [])\<rparr>"

text \<open>The add form filled in, with and without a name, and a person to connect to.\<close>

definition adding :: Home where
  "adding =
     initialHome
       \<lparr>nodes := [person ''1'' ''Ada'' ''To do'' False []],
        newNode := \<lparr>nn_name = ''Bob'', nn_status = ''Interview'', nn_starred = True, nn_team = ''Eng''\<rparr>,
        connection := ''1''\<rparr>"

definition adding_unnamed :: Home where
  "adding_unnamed =
     initialHome
       \<lparr>nodes := [person ''1'' ''Ada'' ''To do'' False []],
        newNode := \<lparr>nn_name = [], nn_status = ''Interview'', nn_starred = True, nn_team = ''Eng''\<rparr>,
        connection := ''1''\<rparr>"

text \<open>Two persons of one team, one starred, seen through all three filters.\<close>

definition filtering :: Home where
  "filtering =
     initialHome
       \<lparr>nodes := [person ''1'' ''Ada'' ''Interview'' True ''Eng'',
                 person ''2'' ''Bob'' ''Interview'' False ''Eng''],
        links := [\<lparr>source = ''1'', target = ''2''\<rparr>, \<lparr>source = ''1'', target = ''1''\<rparr>],
        filterStatus := ''Interview'', filterStarred := True, filterTeam := ''Eng''\<rparr>"

text \<open>A member of a team and a person without a team, both dragged to a stored position.\<close>

definition dragged_member :: Person where
  "dragged_member = (person ''1'' ''Ada'' ''Interview'' False ''Eng'')\<lparr>p_x := Some 5, p_y := Some 5\<rparr>"

definition dragged_loner :: Person where
  "dragged_loner = (person ''2'' ''Bob'' ''To do'' False [])\<lparr>p_x := Some 5, p_y := Some 7\<rparr>"

definition member_only :: Home where
  "member_only = initialHome\<lparr>nodes := [dragged_member]\<rparr>"

definition member_and_loner :: Home where
  "member_and_loner = initialHome\<lparr>nodes := [dragged_member, dragged_loner]\<rparr>"

text \<open>The same visible persons under different links, selection and form input.\<close>

definition member_and_loner_busy :: Home where
  "member_and_loner_busy =
     initialHome
       \<lparr>nodes := [dragged_member, dragged_loner],
        links := [\<lparr>source = ''1'', target = ''2''\<rparr>],
        selectedPerson := Some dragged_loner, childName := ''Cy''\<rparr>"

text \<open>Ten persons in ten teams: four rows of the grid.\<close>

definition ten_teams :: Home where
  "ten_teams =
     initialHome
       \<lparr>nodes := map (\<lambda>t. person t t ''To do'' False t)
                   [''A'', ''B'', ''C'', ''D'', ''E'', ''F'', ''G'', ''H'', ''I'', ''J'']\<rparr>"

text \<open>
  Two persons with ids 1 and 2; the first is clicked and deleted, then a person named
  \<open>Cy\<close> is added through the top form.
\<close>

definition two_people :: Home where
  "two_people =
     initialHome
       \<lparr>nodes := [person ''1'' ''Ada'' ''To do'' False [], person ''2'' ''Bob'' ''To do'' False []]\<rparr>"

definition delete_then_add :: Home where
  "delete_then_add = addNode (typeName ''Cy'' (deletePerson (handleNodeClick ''1'' two_people)))"

text \<open>A document with two persons, both with a stored position, and one link.\<close>

definition sample_document :: DataStructure where
  "sample_document =
     \<lparr>d_nodes = [dragged_member, dragged_loner],
      d_links = [\<lparr>source = ''1'', target = ''2''\<rparr>]\<rparr>"

text \<open>
  A request text with one person whose \<^verbatim>\<open>x\<close> is the number \<^verbatim>\<open>1e400\<close>, the document the body
  parser reads from it, and the same document with \<^verbatim>\<open>null\<close> for that \<^verbatim>\<open>x\<close>.
\<close>

definition overflowing_text :: jtext where
  "overflowing_text =
     TObj (map_of
       [(''nodes'', TArr [TObj (map_of
           [(''id'', TStr ''1''), (''name'', TStr ''Ada''), (''status'', TStr ''To do''),
            (''starred'', TBool False), (''team'', TStr []), (''notes'', TStr []),
            (''x'', TNum ReadsPosInfinity), (''y'', TNum (Reads 0))])]),
        (''links'', TArr [])])"

definition overflowing_document :: jsval where
  "overflowing_document =
     JObject (map_of
       [(''nodes'', JArray [JObject (map_of
           [(''id'', JString ''1''), (''name'', JString ''Ada''), (''status'', JString ''To do''),
            (''starred'', JBoolean False), (''team'', JString []), (''notes'', JString []),
            (''x'', JNumber PosInfinity), (''y'', JNumber (Finite 0))])]),
        (''links'', JArray [])])"

definition nulled_document :: jsval where
  "nulled_document =
     JObject (map_of
       [(''nodes'', JArray [JObject (map_of
           [(''id'', JString ''1''), (''name'', JString ''Ada''), (''status'', JString ''To do''),
            (''starred'', JBoolean False), (''team'', JString []), (''notes'', JString []),
            (''x'', JNull), (''y'', JNumber (Finite 0))])]),
        (''links'', JArray [])])"

text \<open>Reading a property of an object and an element of an array.\<close>

definition property :: "string \<Rightarrow> jsval \<Rightarrow> jsval" where
  "property k v =
     (case v of
        JObject ps \<Rightarrow> (case ps k of None \<Rightarrow> JUndefined | Some w \<Rightarrow> w)
      | _ \<Rightarrow> JUndefined)"

definition element :: "nat \<Rightarrow> jsval \<Rightarrow> jsval" where
  "element i v =
     (case v of
        JArray vs \<Rightarrow> (if i < length vs then vs ! i else JUndefined)
      | _ \<Rightarrow> JUndefined)"

section \<open>Graph repository: proofs\<close>

text \<open>
  C8. \<^verbatim>\<open>addNode\<close> with an empty name in the form returns at once: the state is the one it
  was called in, whatever the other form fields and the connection hold. Nodes and links
  are unchanged, and no document is posted.
\<close>

theorem addNode_empty_name_unchanged:
  assumes "nn_name (newNode s) = []"
  shows "addNode s = s"
  using assms by (simp add: addNode_def)

theorem addNode_empty_name_unchanged_witness:
  "nn_name (newNode adding_unnamed) = [] \<and> connection adding_unnamed = ''1'' \<and>
   nodes (addNode adding_unnamed) = [person ''1'' ''Ada'' ''To do'' False []] \<and>
   links (addNode adding_unnamed) = [] \<and> posted (addNode adding_unnamed) = []"
proof -
  have h: "nn_name (newNode adding_unnamed) = []"
    by (simp add: adding_unnamed_def initialHome_def)
  show ?thesis
    using h addNode_empty_name_unchanged [OF h]
    by (simp add: adding_unnamed_def initialHome_def)
qed

text \<open>
  C4. \<^verbatim>\<open>addNode\<close> with a non-empty name appends one person to the node list: its id is the
  decimal string of the node count plus one, its name, status, starred flag and team are
  those of the form, its notes are empty and it has no stored position. The link list gets
  one more link, from the connection to the new id, when the connection is non-empty, and is
  unchanged otherwise.
\<close>

theorem addNode_appends:
  assumes "nn_name (newNode s) \<noteq> []"
  shows "nodes (addNode s) =
           nodes s @
           [\<lparr>p_id = toString (length (nodes s) + 1), p_name = nn_name (newNode s),
             p_status = nn_status (newNode s), p_starred = nn_starred (newNode s),
             p_team = nn_team (newNode s), p_notes = [], p_x = None, p_y = None\<rparr>] \<and>
         links (addNode s) =
           (if connection s \<noteq> []
            then links s @ [\<lparr>source = connection s, target = toString (length (nodes s) + 1)\<rparr>]
            else links s)"
  using assms by (simp add: addNode_def saveData_def Let_def)

theorem addNode_appends_witness:
  "nn_name (newNode adding) \<noteq> [] \<and>
   nodes (addNode adding) =
     [person ''1'' ''Ada'' ''To do'' False [], person ''2'' ''Bob'' ''Interview'' True ''Eng''] \<and>
   links (addNode adding) = [\<lparr>source = ''1'', target = ''2''\<rparr>]"
proof -
  have h: "nn_name (newNode adding) \<noteq> []"
    by (simp add: adding_def initialHome_def)
  have two: "toString (Suc (Suc 0)) = ''2''"
    by (simp add: toString.simps digit_def)
  show ?thesis
    using h addNode_appends [OF h]
    by (simp add: adding_def initialHome_def person_def two)
qed

text \<open>
  C10. \<^verbatim>\<open>updatePerson\<close> with the edited person \<open>p\<close> in the modal keeps the length of the node
  list, puts \<open>p\<close> at every index whose person has the id of \<open>p\<close> and leaves the person at
  every other index as it was; the link list is unchanged; and when no person has the id of
  \<open>p\<close> the node list is unchanged.
\<close>

theorem updatePerson_frame:
  assumes "selectedPerson s = Some p"
  shows "length (nodes (updatePerson s)) = length (nodes s) \<and>
         (\<forall>i < length (nodes s).
            nodes (updatePerson s) ! i = (if p_id (nodes s ! i) = p_id p then p else nodes s ! i)) \<and>
         links (updatePerson s) = links s \<and>
         ((\<forall>n \<in> set (nodes s). p_id n \<noteq> p_id p) \<longrightarrow> nodes (updatePerson s) = nodes s)"
proof -
  have upd: "nodes (updatePerson s) = map (\<lambda>node. if p_id node = p_id p then p else node) (nodes s)"
    using assms by (simp add: updatePerson_def saveData_def Let_def)
  have lnk: "links (updatePerson s) = links s"
    using assms by (simp add: updatePerson_def saveData_def Let_def)
  have same: "(\<forall>n \<in> set (nodes s). p_id n \<noteq> p_id p) \<longrightarrow> nodes (updatePerson s) = nodes s"
    unfolding upd by (simp add: map_idI)
  from upd lnk same show ?thesis by simp
qed

theorem updatePerson_frame_witness:
  "selectedPerson editing = Some (person ''2'' ''Bob'' ''CEO'' True []) \<and>
   nodes (updatePerson editing) =
     [person ''1'' ''Ada'' ''To do'' False [], person ''2'' ''Bob'' ''CEO'' True []] \<and>
   links (updatePerson editing) = [\<lparr>source = ''1'', target = ''2''\<rparr>]"
proof -
  have h: "selectedPerson editing = Some (person ''2'' ''Bob'' ''CEO'' True [])"
    by (simp add: editing_def initialHome_def)
  have len: "length (nodes editing) = 2" and n0: "nodes editing ! 0 = person ''1'' ''Ada'' ''To do'' False []"
    and n1: "nodes editing ! Suc 0 = person ''2'' ''Bob'' ''To do'' False []"
    by (simp_all add: editing_def initialHome_def)
  from updatePerson_frame [OF h]
  have l: "length (nodes (updatePerson editing)) = 2"
    and a: "\<forall>i < 2. nodes (updatePerson editing) ! i =
        (if p_id (nodes editing ! i) = p_id (person ''2'' ''Bob'' ''CEO'' True [])
         then person ''2'' ''Bob'' ''CEO'' True [] else nodes editing ! i)"
    and k: "links (updatePerson editing) = links editing"
    by (simp_all add: len)
  from a have "nodes (updatePerson editing) ! 0 = person ''1'' ''Ada'' ''To do'' False []"
    by (simp add: n0 person_def)
  moreover from a have "nodes (updatePerson editing) ! 1 = person ''2'' ''Bob'' ''CEO'' True []"
    by (simp add: n1 person_def)
  ultimately have "nodes (updatePerson editing) =
      [person ''1'' ''Ada'' ''To do'' False [], person ''2'' ''Bob'' ''CEO'' True []]"
    using l by (simp add: list_eq_iff_nth_eq less_Suc_eq numeral_2_eq_2)
  with h k show ?thesis by (simp add: editing_def initialHome_def)
qed

text \<open>
  C2. \<^verbatim>\<open>deletePerson\<close> with the person \<open>sel\<close> selected: a person is in the new node list iff
  it was in the old one and its id is not the id of \<open>sel\<close>; a link is in the new link list
  iff it was in the old one and neither its source nor its target is that id; both new
  lists keep the order of the old ones, and every person and every link that stays occurs
  as often as before.
\<close>

theorem deletePerson_exact:
  assumes "selectedPerson s = Some sel"
  shows "(\<forall>n. n \<in> set (nodes (deletePerson s)) \<longleftrightarrow> n \<in> set (nodes s) \<and> p_id n \<noteq> p_id sel) \<and>
         (\<forall>l. l \<in> set (links (deletePerson s)) \<longleftrightarrow>
               l \<in> set (links s) \<and> source l \<noteq> p_id sel \<and> target l \<noteq> p_id sel) \<and>
         subseq (nodes (deletePerson s)) (nodes s) \<and>
         subseq (links (deletePerson s)) (links s) \<and>
         (\<forall>n. p_id n \<noteq> p_id sel \<longrightarrow>
               count_list (nodes (deletePerson s)) n = count_list (nodes s) n) \<and>
         (\<forall>l. source l \<noteq> p_id sel \<and> target l \<noteq> p_id sel \<longrightarrow>
               count_list (links (deletePerson s)) l = count_list (links s) l)"
proof -
  have count_filter: "P a \<Longrightarrow> count_list (filter P xs) a = count_list xs a" for P and a :: 'a and xs
    by (induction xs) auto
  have n: "nodes (deletePerson s) = filter (\<lambda>n. p_id n \<noteq> p_id sel) (nodes s)"
    using assms by (simp add: deletePerson_def saveData_def Let_def)
  have l: "links (deletePerson s) =
      filter (\<lambda>l. source l \<noteq> p_id sel \<and> target l \<noteq> p_id sel) (links s)"
    using assms by (simp add: deletePerson_def saveData_def Let_def)
  show ?thesis
    unfolding n l by (simp add: count_filter)
qed

theorem deletePerson_exact_witness:
  "selectedPerson chain = Some (person ''2'' ''Bob'' ''To do'' False []) \<and>
   person ''1'' ''Ada'' ''To do'' False [] \<in> set (nodes (deletePerson chain)) \<and>
   person ''2'' ''Bob'' ''To do'' False [] \<notin> set (nodes (deletePerson chain)) \<and>
   person ''3'' ''Cy'' ''To do'' False [] \<in> set (nodes (deletePerson chain)) \<and>
   \<lparr>source = ''1'', target = ''2''\<rparr> \<notin> set (links (deletePerson chain)) \<and>
   \<lparr>source = ''2'', target = ''3''\<rparr> \<notin> set (links (deletePerson chain))"
proof -
  have h: "selectedPerson chain = Some (person ''2'' ''Bob'' ''To do'' False [])"
    by (simp add: chain_def initialHome_def)
  have ns: "nodes chain = [person ''1'' ''Ada'' ''To do'' False [], person ''2'' ''Bob'' ''To do'' False [],
      person ''3'' ''Cy'' ''To do'' False []]"
    and ls: "links chain = [\<lparr>source = ''1'', target = ''2''\<rparr>, \<lparr>source = ''2'', target = ''3''\<rparr>]"
    by (simp_all add: chain_def initialHome_def)
  from deletePerson_exact [OF h]
  have a: "\<And>n. n \<in> set (nodes (deletePerson chain)) \<longleftrightarrow>
        n \<in> set (nodes chain) \<and> p_id n \<noteq> p_id (person ''2'' ''Bob'' ''To do'' False [])"
    and b: "\<And>l. l \<in> set (links (deletePerson chain)) \<longleftrightarrow>
        l \<in> set (links chain) \<and> source l \<noteq> p_id (person ''2'' ''Bob'' ''To do'' False []) \<and>
        target l \<noteq> p_id (person ''2'' ''Bob'' ''To do'' False [])"
    by blast+
  show ?thesis
    using h by (simp add: a b ns ls) (simp add: person_def)
qed


text \<open>
  Distinct ids and the two operations that add no person: \<^verbatim>\<open>updatePerson\<close> keeps the list
  of ids, \<^verbatim>\<open>deletePerson\<close> keeps a sublist of it.
\<close>

lemma updatePerson_ids: "map p_id (nodes (updatePerson s)) = map p_id (nodes s)"
proof (cases "selectedPerson s")
  case None
  then show ?thesis by (simp add: updatePerson_def)
next
  case (Some sel)
  have "map p_id (map (\<lambda>node. if p_id node = p_id sel then sel else node) xs) = map p_id xs" for xs
    by (induction xs) auto
  with Some show ?thesis
    by (simp add: updatePerson_def saveData_def Let_def)
qed

lemma deletePerson_distinct_ids:
  "distinct (map p_id (nodes s)) \<Longrightarrow> distinct (map p_id (nodes (deletePerson s)))"
  by (cases "selectedPerson s") (simp_all add: deletePerson_def saveData_def Let_def distinct_map_filter)

lemma addNode_distinct_ids:
  assumes "nn_name (newNode s) \<noteq> []" and "distinct (map p_id (nodes s))"
  shows "distinct (map p_id (nodes (addNode s))) \<longleftrightarrow>
         toString (length (nodes s) + 1) \<notin> p_id ` set (nodes s)"
  using assms by (auto simp add: addNode_def saveData_def Let_def)

text \<open>
  C3. Person ids do not stay distinct. From two persons with the ids 1 and 2, clicking the
  first, deleting it and adding a person through the top form gives two persons with the
  id 2: the new id is the node count plus one, and the count has gone down.
\<close>

theorem delete_then_add_repeats_id:
  "map p_id (nodes two_people) = [''1'', ''2''] \<and>
   map p_id (nodes delete_then_add) = [''2'', ''2''] \<and>
   \<not> distinct (map p_id (nodes delete_then_add))"
proof -
  have two: "toString (Suc (Suc 0)) = ''2''"
    by (simp add: toString.simps digit_def)
  have clicked: "handleNodeClick ''1'' two_people =
      two_people\<lparr>selectedPerson := Some (person ''1'' ''Ada'' ''To do'' False [])\<rparr>"
    by (simp add: handleNodeClick_def two_people_def initialHome_def person_def)
  have ids: "map p_id (nodes delete_then_add) = [''2'', ''2'']"
    unfolding delete_then_add_def clicked
    by (simp add: addNode_def typeName_def deletePerson_def saveData_def Let_def
        two_people_def initialHome_def person_def two)
  show ?thesis
    unfolding ids by (simp add: two_people_def initialHome_def person_def)
qed

section \<open>Filter: proofs\<close>

text \<open>
  C5. The visible nodes are the nodes, in their order, that pass all three tests: the status
  filter is empty or equals the status of the node, the starred filter is off or the node is
  starred, the team filter is empty or equals the team of the node (equality of strings).
  The visible links are the links, in their order, whose source and target are both ids of
  visible nodes.
\<close>

theorem filter_engine_exact:
  "filteredNodes s =
     filter (\<lambda>n. (filterStatus s = [] \<or> p_status n = filterStatus s) \<and>
                  (\<not> filterStarred s \<or> p_starred n) \<and>
                  (filterTeam s = [] \<or> p_team n = filterTeam s)) (nodes s) \<and>
   filteredLinks s =
     filter (\<lambda>l. source l \<in> p_id ` set (filteredNodes s) \<and>
                  target l \<in> p_id ` set (filteredNodes s)) (links s)"
proof -
  have "filteredNodes s =
     filter (\<lambda>n. (filterStatus s = [] \<or> p_status n = filterStatus s) \<and>
                  (\<not> filterStarred s \<or> p_starred n) \<and>
                  (filterTeam s = [] \<or> p_team n = filterTeam s)) (nodes s)"
    unfolding filteredNodes_def by (rule filter_cong) (auto simp add: Let_def)
  moreover have "filteredLinks s =
     filter (\<lambda>l. source l \<in> p_id ` set (filteredNodes s) \<and>
                  target l \<in> p_id ` set (filteredNodes s)) (links s)"
    by (simp add: filteredLinks_def filteredNodeIds_def)
  ultimately show ?thesis by (rule conjI)
qed

theorem filter_engine_exact_witness:
  "filteredNodes filtering = [person ''1'' ''Ada'' ''Interview'' True ''Eng''] \<and>
   filteredLinks filtering = [\<lparr>source = ''1'', target = ''1''\<rparr>]"
proof -
  have st: "filterStatus filtering = ''Interview''" "filterStarred filtering"
    "filterTeam filtering = ''Eng''"
    "nodes filtering = [person ''1'' ''Ada'' ''Interview'' True ''Eng'',
                        person ''2'' ''Bob'' ''Interview'' False ''Eng'']"
    "links filtering = [\<lparr>source = ''1'', target = ''2''\<rparr>, \<lparr>source = ''1'', target = ''1''\<rparr>]"
    by (simp_all add: filtering_def initialHome_def)
  from filter_engine_exact [of filtering]
  have n: "filteredNodes filtering = [person ''1'' ''Ada'' ''Interview'' True ''Eng'']"
    by (simp add: st person_def)
  from filter_engine_exact [of filtering]
  have "filteredLinks filtering =
      filter (\<lambda>l. source l \<in> p_id ` set (filteredNodes filtering) \<and>
                   target l \<in> p_id ` set (filteredNodes filtering)) (links filtering)"
    by (rule conjunct2)
  then have "filteredLinks filtering = [\<lparr>source = ''1'', target = ''1''\<rparr>]"
    unfolding n by (simp add: st person_def)
  with n show ?thesis by simp
qed

section \<open>Persistence endpoint: proofs\<close>

text \<open>A value without \<^verbatim>\<open>undefined\<close> and with finite numbers is read back as it was written.\<close>

lemma stringify_parse:
  "json_safe v \<Longrightarrow> \<exists>t. stringify v = Some t \<and> parse t = v"
proof (induction v)
  case (JNumber n)
  then show ?case by auto
next
  case (JArray vs)
  have each: "parse (or_null (stringify v)) = v" if v: "v \<in> set vs" for v
  proof -
    from JArray.prems v have "json_safe v" by auto
    with JArray.IH [OF v] show ?thesis
      by (auto simp add: or_null_def)
  qed
  have "map (\<lambda>v. parse (or_null (stringify v))) vs = vs"
    by (rule map_idI) (rule each)
  then have "map parse (map or_null (map stringify vs)) = vs"
    by (simp add: comp_def)
  then show ?case by simp
next
  case (JObject ps)
  have "map_option parse \<circ> (present \<circ> (map_option stringify \<circ> ps)) = ps"
  proof
    fix k
    show "(map_option parse \<circ> (present \<circ> (map_option stringify \<circ> ps))) k = ps k"
    proof (cases "ps k")
      case None
      then show ?thesis by (simp add: present_def)
    next
      case (Some v)
      then have mem: "v \<in> set_option (ps k)" by simp
      have "Some (json_safe v) \<in> range (map_option json_safe \<circ> ps)"
        using Some by (metis comp_apply option.simps(9) rangeI)
      with JObject.prems have "json_safe v" by (cases "json_safe v") auto
      then obtain t where "stringify v = Some t" "parse t = v"
        using JObject.IH [OF rangeI mem] by blast
      with Some show ?thesis
        by (simp add: present_def)
    qed
  qed
  then show ?case by simp
qed simp_all

lemma load_after_save_safe:
  assumes "json_safe d"
  shows "load_after_save d file = Inr \<lparr>res_status = 200, res_body = Some d\<rparr>"
proof -
  from stringify_parse [OF assms] obtain t where "stringify d = Some t" "parse t = d"
    by blast
  then show ?thesis
    by (simp add: load_after_save_def handler_def save_request_def load_request_def)
qed

lemma json_safe_object:
  assumes "\<forall>v \<in> snd ` set kvs. json_safe v"
  shows "json_safe (JObject (map_of kvs))"
proof -
  have "map_option json_safe (map_of kvs k) \<noteq> Some False" for k
  proof (cases "map_of kvs k")
    case None
    then show ?thesis by simp
  next
    case (Some v)
    then have "(k, v) \<in> set kvs" by (rule map_of_SomeD)
    then have "v \<in> snd ` set kvs" by force
    with assms have "json_safe v" by blast
    with Some show ?thesis by simp
  qed
  then have "Some False \<notin> range (map_option json_safe \<circ> map_of kvs)"
    by (metis comp_apply rangeE)
  then show ?thesis by simp
qed

lemma json_safe_array: "\<forall>v \<in> set vs. json_safe v \<Longrightarrow> json_safe (JArray vs)"
  by auto

lemma json_safe_personValue: "json_safe (personValue p)"
  unfolding personValue_def
  by (rule json_safe_object) (auto simp add: coordinate_def split: option.splits)

lemma json_safe_linkValue: "json_safe (linkValue l)"
  unfolding linkValue_def by (rule json_safe_object) simp

lemma json_safe_documentValue: "json_safe (documentValue d)"
  unfolding documentValue_def
  by (rule json_safe_object)
     (auto intro!: json_safe_array simp add: json_safe_personValue json_safe_linkValue)

text \<open>
  C6, as stated, fails. The request text whose only person has \<^verbatim>\<open>x\<close> \<open>=\<close> \<^verbatim>\<open>1e400\<close> is read by
  the body parser as a document with \<^verbatim>\<open>x\<close> \<open>=\<close> \<^verbatim>\<open>Infinity\<close>; the POST writes \<^verbatim>\<open>null\<close> for it,
  and the GET that follows answers with a document whose \<^verbatim>\<open>x\<close> is \<^verbatim>\<open>null\<close>.
\<close>

theorem infinite_coordinate_read_back_null:
  "parse overflowing_text = overflowing_document \<and>
   property ''x'' (element 0 (property ''nodes'' overflowing_document)) = JNumber PosInfinity \<and>
   load_after_save overflowing_document None =
     Inr \<lparr>res_status = 200, res_body = Some nulled_document\<rparr> \<and>
   property ''x'' (element 0 (property ''nodes'' nulled_document)) = JNull \<and>
   nulled_document \<noteq> overflowing_document"
proof -
  have p: "parse overflowing_text = overflowing_document"
    by (simp add: overflowing_text_def overflowing_document_def fun_eq_iff)
  have x: "property ''x'' (element 0 (property ''nodes'' overflowing_document)) = JNumber PosInfinity"
    by (simp add: overflowing_document_def property_def element_def)
  have n: "property ''x'' (element 0 (property ''nodes'' nulled_document)) = JNull"
    by (simp add: nulled_document_def property_def element_def)
  have l: "load_after_save overflowing_document None =
      Inr \<lparr>res_status = 200, res_body = Some nulled_document\<rparr>"
    by (simp add: load_after_save_def handler_def save_request_def load_request_def
        overflowing_document_def nulled_document_def present_def or_null_def fun_eq_iff)
  have d: "nulled_document \<noteq> overflowing_document"
  proof
    assume "nulled_document = overflowing_document"
    with x have "property ''x'' (element 0 (property ''nodes'' nulled_document)) = JNumber PosInfinity"
      by simp
    with n show False by simp
  qed
  from p x l n d show ?thesis by simp
qed

text \<open>
  C6, amended. For every document whose stored coordinates are finite numbers, and whatever
  the file held before, a GET that follows the POST of the document at once answers with
  status 200 and that document.
\<close>

theorem save_then_load:
  "load_after_save (documentValue d) file =
     Inr \<lparr>res_status = 200, res_body = Some (documentValue d)\<rparr>"
  by (rule load_after_save_safe) (rule json_safe_documentValue)

theorem save_then_load_witness:
  "p_x dragged_member = Some 5 \<and>
   load_after_save (documentValue sample_document) (Some NotJSON) =
     Inr \<lparr>res_status = 200, res_body = Some (documentValue sample_document)\<rparr>"
  using save_then_load [of sample_document "Some NotJSON"]
  by (simp add: dragged_member_def person_def)

section \<open>Team layout: proofs\<close>

subsection \<open>The team map holds the distinct teams in first-seen order\<close>

lemma has_keys: "has m k \<longleftrightarrow> k \<in> fst ` set m"
  by (simp add: has_def map_of_eq_None_iff)

lemma spec_firstSeen_filter: "filter Q (spec_firstSeen xs) = spec_firstSeen (filter Q xs)"
proof (induction xs)
  case Nil
  then show ?case by simp
next
  case (Cons t ts)
  show ?case
  proof (cases "Q t")
    case True
    have "filter Q (filter (\<lambda>u. u \<noteq> t) (spec_firstSeen ts)) =
        filter (\<lambda>u. u \<noteq> t) (filter Q (spec_firstSeen ts))"
      by (simp add: conj_commute)
    with True Cons.IH show ?thesis by simp
  next
    case False
    have "filter Q (filter (\<lambda>u. u \<noteq> t) (spec_firstSeen ts)) = filter Q (spec_firstSeen ts)"
      unfolding filter_filter using False by (intro filter_cong) auto
    with False Cons.IH show ?thesis by simp
  qed
qed

lemma set_spec_firstSeen: "set (spec_firstSeen xs) = set xs"
  by (induction xs) auto

lemma distinct_spec_firstSeen: "distinct (spec_firstSeen xs)"
  by (induction xs) (auto simp: set_spec_firstSeen)

lemma update_fresh: "k \<notin> fst ` set al \<Longrightarrow> AList.update k v al = al @ [(k, v)]"
  by (induction al) auto

lemma teamEntry_keys: "fst ` set (map teamEntry ks) = set ks"
  by (induction ks) (auto simp: teamEntry_def)

lemma teamStep_entries:
  "teamStep x (map teamEntry ks) =
     map teamEntry (if p_team x \<noteq> [] \<and> p_team x \<notin> set ks then ks @ [p_team x] else ks)"
proof (cases "p_team x \<noteq> [] \<and> p_team x \<notin> set ks")
  case True
  then have fresh: "p_team x \<notin> fst ` set (map teamEntry ks)"
    by (simp only: teamEntry_keys) simp
  then have "\<not> has (map teamEntry ks) (p_team x)"
    by (simp only: has_keys) simp
  with True have "teamStep x (map teamEntry ks) =
      AList.update (p_team x) \<lparr>t_id = ''team_'' @ p_team x, t_label = p_team x\<rparr> (map teamEntry ks)"
    by (simp add: teamStep_def)
  also have "\<dots> = map teamEntry ks @ [teamEntry (p_team x)]"
    using update_fresh [OF fresh] by (simp add: teamEntry_def)
  finally show ?thesis using True by simp
next
  case False
  then have "p_team x = [] \<or> has (map teamEntry ks) (p_team x)"
    by (simp only: has_keys teamEntry_keys) simp
  then have "teamStep x (map teamEntry ks) = map teamEntry ks"
    by (auto simp add: teamStep_def)
  with False show ?thesis by auto
qed

lemma fold_teamStep:
  "fold teamStep xs (map teamEntry ks) =
     map teamEntry (ks @ spec_firstSeen (filter (\<lambda>t. t \<noteq> [] \<and> t \<notin> set ks) (map p_team xs)))"
proof (induction xs arbitrary: ks)
  case Nil
  then show ?case by simp
next
  case (Cons x xs)
  show ?case
  proof (cases "p_team x \<noteq> [] \<and> p_team x \<notin> set ks")
    case True
    have "filter (\<lambda>u. u \<noteq> p_team x)
            (spec_firstSeen (filter (\<lambda>t. t \<noteq> [] \<and> t \<notin> set ks) (map p_team xs))) =
          spec_firstSeen (filter (\<lambda>t. t \<noteq> [] \<and> t \<notin> set (ks @ [p_team x])) (map p_team xs))"
      unfolding spec_firstSeen_filter filter_filter
      by (rule arg_cong [where f = spec_firstSeen], rule filter_cong) auto
    with True Cons.IH [of "ks @ [p_team x]"] show ?thesis
      by (simp add: teamStep_entries)
  next
    case False
    with Cons.IH [of ks] show ?thesis
      by (auto simp add: teamStep_entries)
  qed
qed

lemma teamNodesMap_distinctTeams:
  "teamNodesMap s = map teamEntry (spec_distinctTeams (filteredNodes s))"
  using fold_teamStep [of "filteredNodes s" "[]"]
  by (simp add: teamNodesMap_def spec_distinctTeams_def)

subsection \<open>The rows of the grid\<close>

lemma fy_rows:
  "or_number (at_index yPositions (k div TEAMS_IN_A_ROW)) 0 =
     (if k < 3 then 50 else if k < 6 then 450 else if k < 9 then 850 else 0)"
proof -
  consider "k div 3 = 0" | "k div 3 = 1" | "k div 3 = 2" | "3 \<le> k div 3"
    by linarith
  then show ?thesis
  proof cases
    case 1
    then have "k < 3" by simp
    with 1 show ?thesis
      by (simp add: or_number_def at_index_def yPositions_def TEAMS_IN_A_ROW_def)
  next
    case 2
    then have "3 \<le> k" "k < 6" by presburger+
    with 2 show ?thesis
      by (simp add: or_number_def at_index_def yPositions_def TEAMS_IN_A_ROW_def)
  next
    case 3
    then have "6 \<le> k" "k < 9" by presburger+
    with 3 show ?thesis
      by (simp add: or_number_def at_index_def yPositions_def TEAMS_IN_A_ROW_def)
  next
    case 4
    then have "9 \<le> k" by presburger
    with 4 show ?thesis
      by (simp add: or_number_def at_index_def yPositions_def TEAMS_IN_A_ROW_def)
  qed
qed

text \<open>
  C7. There is one pinned team node for each distinct non-empty team name of the visible
  persons, in first-seen order. The \<open>k\<close>-th of them (from 0) carries the \<open>k\<close>-th name, the
  horizontal position \<open>((k mod 3) + 1) * 800\<close> and the vertical position 50, 450 or 850 for
  the rows 0, 1 and 2; from the tenth team on (\<open>k \<ge> 9\<close>, row 3 and beyond) the lookup still
  has a value, and the vertical position is 0.
\<close>

theorem team_grid_position:
  assumes "k < length (spec_distinctTeams (filteredNodes s))"
  shows "length (pinnedTeamNodes s) = length (spec_distinctTeams (filteredNodes s)) \<and>
         tn_label (pinnedTeamNodes s ! k) = spec_distinctTeams (filteredNodes s) ! k \<and>
         tn_id (pinnedTeamNodes s ! k) = ''team_'' @ spec_distinctTeams (filteredNodes s) ! k \<and>
         tn_fx (pinnedTeamNodes s ! k) = real ((k mod 3 + 1) * 800) \<and>
         tn_fy (pinnedTeamNodes s ! k) =
           (if k div 3 = 0 then 50 else if k div 3 = 1 then 450 else if k div 3 = 2 then 850 else 0)"
proof -
  have arr: "teamNodesArray s =
      map (\<lambda>t. \<lparr>t_id = ''team_'' @ t, t_label = t\<rparr>) (spec_distinctTeams (filteredNodes s))"
    by (simp add: teamNodesArray_def teamNodesMap_distinctTeams teamEntry_def)
  have len: "length (pinnedTeamNodes s) = length (spec_distinctTeams (filteredNodes s))"
    by (simp add: pinnedTeamNodes_def arr)
  have node: "pinnedTeamNodes s ! k =
      \<lparr>tn_id = ''team_'' @ spec_distinctTeams (filteredNodes s) ! k,
       tn_label = spec_distinctTeams (filteredNodes s) ! k,
       tn_color = ''#9b59b6'', tn_size = 600,
       tn_fx = real ((k mod TEAMS_IN_A_ROW + 1) * 800),
       tn_fy = or_number (at_index yPositions (k div TEAMS_IN_A_ROW)) 0,
       tn_static = True\<rparr>"
    using assms by (simp add: pinnedTeamNodes_def arr nth_enumerate_eq Let_def)
  have rows: "(if k < 3 then 50 else if k < 6 then 450 else if k < 9 then 850 else (0::real)) =
      (if k div 3 = 0 then 50 else if k div 3 = 1 then 450 else if k div 3 = 2 then 850 else 0)"
    by (simp add: div_eq_dividend_iff) presburger
  show ?thesis
    unfolding node using len by (simp add: fy_rows rows) (simp add: TEAMS_IN_A_ROW_def)
qed

theorem team_grid_position_witness:
  "9 < length (spec_distinctTeams (filteredNodes ten_teams)) \<and>
   length (pinnedTeamNodes ten_teams) = 10 \<and>
   tn_label (pinnedTeamNodes ten_teams ! 9) = ''J'' \<and>
   tn_fx (pinnedTeamNodes ten_teams ! 9) = 800 \<and>
   tn_fy (pinnedTeamNodes ten_teams ! 9) = 0"
proof -
  have teams: "spec_distinctTeams (filteredNodes ten_teams) =
      [''A'', ''B'', ''C'', ''D'', ''E'', ''F'', ''G'', ''H'', ''I'', ''J'']"
    by (simp add: spec_distinctTeams_def filteredNodes_def ten_teams_def initialHome_def person_def)
  have h: "9 < length (spec_distinctTeams (filteredNodes ten_teams))"
    unfolding teams by simp
  from team_grid_position [OF h] show ?thesis
    unfolding teams by simp
qed


subsection \<open>Persons without a team; the layout never throws\<close>

lemma groupStep_fst:
  "fst (fold (groupStep tp) xs (gpn, tg)) =
     gpn @ map storedNode (filter (\<lambda>n. \<not> (p_team n \<noteq> [] \<and> has tp (p_team n))) xs)"
  by (induction xs arbitrary: gpn tg) (simp_all add: groupStep_def Let_def)

lemma groupStep_keys_step:
  assumes "\<forall>k \<in> fst ` set tg. has tp k"
  shows "\<forall>k \<in> fst ` set (snd (groupStep tp x (gpn, tg))). has tp k"
proof (cases "p_team x \<noteq> [] \<and> has tp (p_team x)")
  case grouped: True
  show ?thesis
  proof (cases "has tg (p_team x)")
    case False
    with grouped have "snd (groupStep tp x (gpn, tg)) =
        AList.map_entry (p_team x) (\<lambda>members. members @ [x]) (AList.update (p_team x) [] tg)"
      by (simp add: groupStep_def)
    then have "fst ` set (snd (groupStep tp x (gpn, tg))) = insert (p_team x) (fst ` set tg)"
      by (simp add: dom_map_entry dom_update)
    with assms grouped show ?thesis by simp
  next
    case True
    with grouped have "snd (groupStep tp x (gpn, tg)) =
        AList.map_entry (p_team x) (\<lambda>members. members @ [x]) tg"
      by (simp add: groupStep_def)
    then have "fst ` set (snd (groupStep tp x (gpn, tg))) = fst ` set tg"
      by (simp add: dom_map_entry)
    with assms show ?thesis by simp
  qed
next
  case False
  then have "snd (groupStep tp x (gpn, tg)) = tg"
    by (auto simp add: groupStep_def)
  with assms show ?thesis by simp
qed

lemma groupStep_keys:
  "\<forall>k \<in> fst ` set tg. has tp k \<Longrightarrow>
   \<forall>k \<in> fst ` set (snd (fold (groupStep tp) xs (gpn, tg))). has tp k"
proof (induction xs arbitrary: gpn tg)
  case Nil
  then show ?case by simp
next
  case (Cons x xs)
  obtain gpn' tg' where st: "groupStep tp x (gpn, tg) = (gpn', tg')"
    by (cases "groupStep tp x (gpn, tg)")
  from groupStep_keys_step [OF Cons.prems, of x gpn]
  have "\<forall>k \<in> fst ` set tg'. has tp k"
    by (simp add: st)
  from Cons.IH [OF this, of gpn'] show ?case
    by (simp add: st)
qed

lemma placeGroups_total:
  "\<forall>k \<in> fst ` set tg. has tp k \<Longrightarrow> \<exists>rest. placeGroups tp tg gpn = Inr (gpn @ rest)"
proof (induction tg arbitrary: gpn)
  case Nil
  then show ?case by simp
next
  case (Cons g tg)
  obtain teamName nodesInTeam where g: "g = (teamName, nodesInTeam)" by (cases g)
  from Cons.prems g obtain teamPos where tp: "map_of tp teamName = Some teamPos"
    by (auto simp: has_def)
  from Cons.prems have "\<forall>k \<in> fst ` set tg. has tp k" by simp
  from Cons.IH [OF this, of "gpn @ map (circleNode teamPos (length nodesInTeam)) (enumerate 0 nodesInTeam)"]
  show ?case using g tp by auto
qed

lemma graphPersonNodes_total:
  "\<exists>rest. graphPersonNodes s =
     Inr (map storedNode
            (filter (\<lambda>n. \<not> (p_team n \<noteq> [] \<and> has (teamPositions s) (p_team n))) (filteredNodes s))
          @ rest)"
proof -
  have "\<forall>k \<in> fst ` set (teamGroups s). has (teamPositions s) k"
    unfolding teamGroups_def grouped_def by (rule groupStep_keys) simp
  from placeGroups_total [OF this, of "fst (grouped s)"]
  show ?thesis by (simp add: graphPersonNodes_def grouped_def groupStep_fst)
qed


subsection \<open>Members of a team: the circle around the pinned team node\<close>

lemma pinnedTeamNodes_labels:
  "map tn_label (pinnedTeamNodes s) = spec_distinctTeams (filteredNodes s)"
proof -
  have "map tn_label (pinnedTeamNodes s) =
      map (\<lambda>p. t_label (snd p)) (enumerate 0 (teamNodesArray s))"
    by (simp add: pinnedTeamNodes_def split_beta Let_def comp_def)
  also have "\<dots> = map t_label (map snd (enumerate 0 (teamNodesArray s)))"
    by (simp only: map_map comp_def)
  also have "\<dots> = map t_label (teamNodesArray s)"
    by simp
  also have "\<dots> = spec_distinctTeams (filteredNodes s)"
    by (simp add: teamNodesArray_def teamNodesMap_distinctTeams teamEntry_def comp_def)
  finally show ?thesis .
qed

lemma fold_update_fresh:
  "distinct (map f xs) \<Longrightarrow> f ` set xs \<inter> fst ` set m = {} \<Longrightarrow>
   fold (\<lambda>x. AList.update (f x) (g x)) xs m = m @ map (\<lambda>x. (f x, g x)) xs"
proof (induction xs arbitrary: m)
  case Nil
  then show ?case by simp
next
  case (Cons x xs)
  from Cons.prems have fresh: "f x \<notin> fst ` set m" by auto
  have step: "AList.update (f x) (g x) m = m @ [(f x, g x)]"
    using fresh by (rule update_fresh)
  from Cons.prems have "distinct (map f xs)" "f ` set xs \<inter> fst ` set (m @ [(f x, g x)]) = {}"
    by auto
  from Cons.IH [OF this] show ?case
    by (simp add: step)
qed

lemma teamPositions_entries:
  "teamPositions s = map (\<lambda>tn. (tn_label tn, tn_fx tn, tn_fy tn)) (pinnedTeamNodes s)"
proof -
  have "distinct (map tn_label (pinnedTeamNodes s))"
    by (simp add: pinnedTeamNodes_labels spec_distinctTeams_def distinct_spec_firstSeen)
  then show ?thesis
    unfolding teamPositions_def
    using fold_update_fresh [of tn_label "pinnedTeamNodes s" "[]" "\<lambda>tn. (tn_fx tn, tn_fy tn)"]
    by simp
qed

lemma teamPositions_keys: "fst ` set (teamPositions s) = set (spec_distinctTeams (filteredNodes s))"
proof -
  have "fst ` set (teamPositions s) = set (map tn_label (pinnedTeamNodes s))"
    unfolding teamPositions_entries by (simp add: image_image)
  then show ?thesis by (simp only: pinnedTeamNodes_labels)
qed

lemma teamPositions_lookup:
  assumes "k < length (pinnedTeamNodes s)"
  shows "map_of (teamPositions s) (tn_label (pinnedTeamNodes s ! k)) =
           Some (tn_fx (pinnedTeamNodes s ! k), tn_fy (pinnedTeamNodes s ! k))"
proof -
  have d: "distinct (map fst (teamPositions s))"
    unfolding teamPositions_entries
    by (simp add: comp_def pinnedTeamNodes_labels spec_distinctTeams_def distinct_spec_firstSeen)
  have "pinnedTeamNodes s ! k \<in> set (pinnedTeamNodes s)"
    using assms by simp
  then have "(tn_label (pinnedTeamNodes s ! k), tn_fx (pinnedTeamNodes s ! k), tn_fy (pinnedTeamNodes s ! k))
      \<in> set (teamPositions s)"
    unfolding teamPositions_entries by (simp add: image_iff) blast
  with d show ?thesis by simp
qed

lemma visible_team_has_position:
  assumes "n \<in> set (filteredNodes s)" and "p_team n \<noteq> []"
  shows "has (teamPositions s) (p_team n)"
  using assms
  by (simp add: has_keys teamPositions_keys spec_distinctTeams_def set_spec_firstSeen)

lemma groupStep_map_of:
  "map_of (snd (groupStep tp x (gpn, tg))) =
     (if p_team x \<noteq> [] \<and> has tp (p_team x)
      then (map_of tg)(p_team x \<mapsto> (case map_of tg (p_team x) of None \<Rightarrow> [] | Some ms \<Rightarrow> ms) @ [x])
      else map_of tg)"
proof (cases "p_team x \<noteq> [] \<and> has tp (p_team x)")
  case grouped: True
  show ?thesis
  proof (cases "map_of tg (p_team x)")
    case None
    then have "\<not> has tg (p_team x)" by (simp add: has_def)
    with grouped have "snd (groupStep tp x (gpn, tg)) =
        AList.map_entry (p_team x) (\<lambda>members. members @ [x]) (AList.update (p_team x) [] tg)"
      by (simp add: groupStep_def)
    with grouped None show ?thesis
      by (simp add: map_of_map_entry update_conv')
  next
    case (Some ms)
    then have "has tg (p_team x)" by (simp add: has_def)
    with grouped have "snd (groupStep tp x (gpn, tg)) =
        AList.map_entry (p_team x) (\<lambda>members. members @ [x]) tg"
      by (simp add: groupStep_def)
    with grouped Some show ?thesis
      by (simp add: map_of_map_entry)
  qed
next
  case False
  then have "snd (groupStep tp x (gpn, tg)) = tg"
    by (auto simp add: groupStep_def)
  with False show ?thesis by auto
qed

lemma fold_groupStep_map_of:
  "map_of (snd (fold (groupStep tp) xs (gpn, tg))) t =
     (if t \<noteq> [] \<and> has tp t \<and> t \<in> p_team ` set xs
      then Some ((case map_of tg t of None \<Rightarrow> [] | Some ms \<Rightarrow> ms) @ filter (\<lambda>n. p_team n = t) xs)
      else map_of tg t)"
proof (induction xs arbitrary: gpn tg)
  case Nil
  then show ?case by simp
next
  case (Cons x xs)
  obtain gpn' tg' where st: "groupStep tp x (gpn, tg) = (gpn', tg')"
    by (cases "groupStep tp x (gpn, tg)")
  have tg': "map_of tg' =
      (if p_team x \<noteq> [] \<and> has tp (p_team x)
       then (map_of tg)(p_team x \<mapsto> (case map_of tg (p_team x) of None \<Rightarrow> [] | Some ms \<Rightarrow> ms) @ [x])
       else map_of tg)"
    using groupStep_map_of [of tp x gpn tg] by (simp add: st)
  have "map_of (snd (fold (groupStep tp) (x # xs) (gpn, tg))) t =
      map_of (snd (fold (groupStep tp) xs (gpn', tg'))) t"
    by (simp add: st)
  also have "\<dots> =
     (if t \<noteq> [] \<and> has tp t \<and> t \<in> p_team ` set xs
      then Some ((case map_of tg' t of None \<Rightarrow> [] | Some ms \<Rightarrow> ms) @ filter (\<lambda>n. p_team n = t) xs)
      else map_of tg' t)"
    by (rule Cons.IH)
  also have "\<dots> =
     (if t \<noteq> [] \<and> has tp t \<and> t \<in> p_team ` set (x # xs)
      then Some ((case map_of tg t of None \<Rightarrow> [] | Some ms \<Rightarrow> ms) @ filter (\<lambda>n. p_team n = t) (x # xs))
      else map_of tg t)"
    unfolding tg'
    by (cases "p_team x = t") (auto split: option.splits simp: filter_empty_conv empty_filter_conv image_iff)
  finally show ?case .
qed

lemma teamGroups_members:
  assumes "n \<in> set (filteredNodes s)" and "p_team n \<noteq> []"
  shows "(p_team n, filter (\<lambda>v. p_team v = p_team n) (filteredNodes s)) \<in> set (teamGroups s)"
proof -
  have "map_of (teamGroups s) (p_team n) =
      Some (filter (\<lambda>v. p_team v = p_team n) (filteredNodes s))"
    unfolding teamGroups_def grouped_def fold_groupStep_map_of
    using assms visible_team_has_position [OF assms] by simp
  then show ?thesis by (rule map_of_SomeD)
qed

lemma placeGroups_total_prefix:
  "placeGroups tp tg gpn = Inr r \<Longrightarrow> \<exists>more. r = gpn @ more"
proof (induction tg arbitrary: gpn)
  case Nil
  then show ?case by simp
next
  case (Cons g tg)
  obtain teamName nodesInTeam where g: "g = (teamName, nodesInTeam)" by (cases g)
  from Cons.prems g obtain teamPos where
    "placeGroups tp tg
        (gpn @ map (circleNode teamPos (length nodesInTeam)) (enumerate 0 nodesInTeam)) = Inr r"
    by (auto split: option.splits)
  from Cons.IH [OF this] show ?case by auto
qed

lemma placeGroups_nodes:
  assumes "placeGroups tp tg gpn = Inr r" and "(t, ms) \<in> set tg" and "map_of tp t = Some pos"
    and "i < length ms"
  shows "circleNode pos (length ms) (i, ms ! i) \<in> set r"
  using assms
proof (induction tg arbitrary: gpn)
  case Nil
  then show ?case by simp
next
  case (Cons g tg)
  obtain teamName nodesInTeam where g: "g = (teamName, nodesInTeam)" by (cases g)
  from Cons.prems(1) g obtain teamPos where tp: "map_of tp teamName = Some teamPos"
    and rest: "placeGroups tp tg
        (gpn @ map (circleNode teamPos (length nodesInTeam)) (enumerate 0 nodesInTeam)) = Inr r"
    by (auto split: option.splits)
  show ?case
  proof (cases "(t, ms) = g")
    case True
    with g tp Cons.prems(3) have eq: "teamName = t" "nodesInTeam = ms" "teamPos = pos" by auto
    from placeGroups_total_prefix rest obtain more where
      r: "r = (gpn @ map (circleNode pos (length ms)) (enumerate 0 ms)) @ more"
      unfolding eq by blast
    have "(i, ms ! i) \<in> set (enumerate 0 ms)"
      using Cons.prems(4) by (simp add: in_set_enumerate_eq)
    then show ?thesis unfolding r by simp
  next
    case False
    with Cons.prems(2) have "(t, ms) \<in> set tg" by auto
    from Cons.IH [OF rest this Cons.prems(3) Cons.prems(4)] show ?thesis .
  qed
qed

lemma layout_returns: "\<exists>r. rfNodes s = Inr r"
proof -
  obtain gp where "graphPersonNodes s = Inr gp"
    using graphPersonNodes_total by blast
  then show ?thesis by (simp add: rfNodes_def graphNodes_def)
qed

text \<open>
  A visible person with a non-empty team is grouped, whatever position it has stored: its
  node lies on the circle of radius 200 around the pinned node of its team, at the angle
  \<open>2\<pi>i/m\<close> for the \<open>i\<close>-th of the \<open>m\<close> visible members of the team.
\<close>

lemma team_member_on_circle:
  assumes "n \<in> set (filteredNodes s)" and "p_team n \<noteq> []"
  shows "\<exists>r k i. rfNodes s = Inr r \<and>
           k < length (pinnedTeamNodes s) \<and> tn_label (pinnedTeamNodes s ! k) = p_team n \<and>
           i < length (filter (\<lambda>v. p_team v = p_team n) (filteredNodes s)) \<and>
           filter (\<lambda>v. p_team v = p_team n) (filteredNodes s) ! i = n \<and>
           (\<exists>g \<in> set r. rf_id g = p_id n \<and> rf_label g = nodeLabel n \<and>
              rf_position g =
                (tn_fx (pinnedTeamNodes s ! k) +
                   200 * cos (2 * pi * real i /
                     real (length (filter (\<lambda>v. p_team v = p_team n) (filteredNodes s)))),
                 tn_fy (pinnedTeamNodes s ! k) +
                   200 * sin (2 * pi * real i /
                     real (length (filter (\<lambda>v. p_team v = p_team n) (filteredNodes s))))))"
proof -
  let ?ms = "filter (\<lambda>v. p_team v = p_team n) (filteredNodes s)"
  from assms have "n \<in> set ?ms" by simp
  then obtain i where i: "i < length ?ms" "?ms ! i = n"
    by (auto simp only: in_set_conv_nth)
  from assms have "p_team n \<in> set (map tn_label (pinnedTeamNodes s))"
    unfolding pinnedTeamNodes_labels
    by (simp add: spec_distinctTeams_def set_spec_firstSeen)
  then obtain k where k: "k < length (pinnedTeamNodes s)" "tn_label (pinnedTeamNodes s ! k) = p_team n"
    by (auto simp add: in_set_conv_nth)
  let ?pos = "(tn_fx (pinnedTeamNodes s ! k), tn_fy (pinnedTeamNodes s ! k))"
  have pos: "map_of (teamPositions s) (p_team n) = Some ?pos"
    using teamPositions_lookup [OF k(1)] by (simp only: k(2))
  obtain gp where gp: "graphPersonNodes s = Inr gp"
    using graphPersonNodes_total by blast
  then have "placeGroups (teamPositions s) (teamGroups s) (fst (grouped s)) = Inr gp"
    by (simp only: graphPersonNodes_def)
  from placeGroups_nodes [OF this teamGroups_members [OF assms] pos i(1)]
  have mem: "circleNode ?pos (length ?ms) (i, n) \<in> set gp"
    by (simp only: i(2))
  let ?g = "rfNode (PersonG (circleNode ?pos (length ?ms) (i, n)))"
  have r: "rfNodes s = Inr (map rfNode (map PersonG gp @ map TeamG (pinnedTeamNodes s)))"
    by (simp add: rfNodes_def graphNodes_def gp)
  from mem have "?g \<in> set (map rfNode (map PersonG gp @ map TeamG (pinnedTeamNodes s)))"
    by auto
  moreover have "rf_id ?g = p_id n" "rf_label ?g = nodeLabel n"
    "rf_position ?g =
       (tn_fx (pinnedTeamNodes s ! k) + 200 * cos (2 * pi * real i / real (length ?ms)),
        tn_fy (pinnedTeamNodes s ! k) + 200 * sin (2 * pi * real i / real (length ?ms)))"
    by (simp_all add: rfNode_def circleNode_def radius_def Let_def)
  ultimately show ?thesis using r k i by blast
qed


text \<open>
  C1, as stated, fails: a visible person of the team \<open>Eng\<close> with the stored position
  \<open>(5, 5)\<close> is the only member of the first team, and the layout puts it on the circle of
  that team, at \<open>(800 + 200, 50)\<close>.
\<close>

theorem team_member_leaves_stored_position:
  "filteredNodes member_only = [dragged_member] \<and>
   p_x dragged_member = Some 5 \<and> p_y dragged_member = Some 5 \<and>
   rfNodes member_only =
     Inr [\<lparr>rf_id = ''1'', rf_position = (1000, 50), rf_label = ''Ada'',
           rf_background = Some ''#e67e22'', rf_opacity = Some 1, rf_draggable = True\<rparr>,
          \<lparr>rf_id = ''team_Eng'', rf_position = (800, 50), rf_label = ''Eng'',
           rf_background = Some ''#9b59b6'', rf_opacity = None, rf_draggable = False\<rparr>]"
proof -
  have vis: "filteredNodes member_only = [dragged_member]"
    by (simp add: filteredNodes_def member_only_def initialHome_def)
  have pinned: "pinnedTeamNodes member_only =
      [\<lparr>tn_id = ''team_Eng'', tn_label = ''Eng'', tn_color = ''#9b59b6'', tn_size = 600,
        tn_fx = 800, tn_fy = 50, tn_static = True\<rparr>]"
    by (simp add: pinnedTeamNodes_def teamNodesArray_def teamNodesMap_def vis teamStep_def has_def
        dragged_member_def person_def TEAMS_IN_A_ROW_def yPositions_def at_index_def or_number_def)
  have tp: "teamPositions member_only = [(''Eng'', 800, 50)]"
    by (simp add: teamPositions_def pinned)
  have grp: "grouped member_only = ([], [(''Eng'', [dragged_member])])"
    by (simp add: grouped_def tp vis groupStep_def has_def) (simp add: dragged_member_def person_def)
  have gp: "graphPersonNodes member_only =
      Inr [\<lparr>pn_id = ''1'', pn_label = ''Ada'', pn_color = Some ''#e67e22'', pn_opacity = 1,
            pn_x = 1000, pn_y = 50\<rparr>]"
    by (simp add: graphPersonNodes_def teamGroups_def grp tp circleNode_def radius_def nodeLabel_def
        statusColors_def dragged_member_def person_def)
  show ?thesis
    by (simp add: vis rfNodes_def graphNodes_def gp pinned rfNode_def)
       (simp add: dragged_member_def person_def)
qed

text \<open>
  C1, amended. A visible person with an empty team and a stored \<open>(x, y)\<close> has a node in the
  layout output, with its id and label, exactly at the stored \<open>(x, y)\<close>; and the layout
  returns (the lookup of a team position never fails).
\<close>

theorem stored_position_kept_without_team:
  assumes "n \<in> set (filteredNodes s)" and "p_team n = []"
    and "p_x n = Some a" and "p_y n = Some b"
  shows "\<exists>r. rfNodes s = Inr r \<and>
           (\<exists>g \<in> set r. rf_id g = p_id n \<and> rf_label g = nodeLabel n \<and> rf_position g = (a, b))"
proof -
  let ?plain = "filter (\<lambda>n. \<not> (p_team n \<noteq> [] \<and> has (teamPositions s) (p_team n))) (filteredNodes s)"
  obtain rest where gp: "graphPersonNodes s = Inr (map storedNode ?plain @ rest)"
    using graphPersonNodes_total by blast
  let ?r = "map rfNode (map PersonG (map storedNode ?plain @ rest) @ map TeamG (pinnedTeamNodes s))"
  have r: "rfNodes s = Inr ?r" by (simp add: rfNodes_def graphNodes_def gp)
  have "n \<in> set ?plain" using assms by simp
  then have "rfNode (PersonG (storedNode n)) \<in> set ?r" by auto
  moreover have "rf_id (rfNode (PersonG (storedNode n))) = p_id n"
    "rf_label (rfNode (PersonG (storedNode n))) = nodeLabel n"
    "rf_position (rfNode (PersonG (storedNode n))) = (a, b)"
    using assms by (simp_all add: rfNode_def storedNode_def)
  ultimately show ?thesis using r by blast
qed

theorem stored_position_kept_without_team_witness:
  "dragged_loner \<in> set (filteredNodes member_and_loner) \<and> p_team dragged_loner = [] \<and>
   p_x dragged_loner = Some 5 \<and> p_y dragged_loner = Some 7 \<and>
   (\<exists>r. rfNodes member_and_loner = Inr r \<and>
      (\<exists>g. g \<in> set r \<and> rf_id g = ''2'' \<and> rf_label g = ''Bob'' \<and> rf_position g = (5, 7)))"
proof -
  have h: "dragged_loner \<in> set (filteredNodes member_and_loner)" "p_team dragged_loner = []"
    "p_x dragged_loner = Some 5" "p_y dragged_loner = Some 7"
    by (simp_all add: filteredNodes_def member_and_loner_def initialHome_def dragged_loner_def person_def)
  have "p_id dragged_loner = ''2''" "nodeLabel dragged_loner = ''Bob''"
    by (simp_all add: nodeLabel_def dragged_loner_def person_def)
  with stored_position_kept_without_team [OF h] h show ?thesis
    by (simp add: Bex_def)
qed

text \<open>
  C9. The layout is a function of the visible persons alone: two states with the same
  list of visible persons, whatever else differs between them (all nodes, links, filters,
  selection, form input), get the same result, node for node, and so the same coordinates.
  This holds with or without stored positions.
\<close>

theorem layout_two_runs:
  assumes "filteredNodes s = filteredNodes s'"
  shows "rfNodes s = rfNodes s'"
  using assms
  by (simp only: rfNodes_def graphNodes_def graphPersonNodes_def teamGroups_def grouped_def
      teamPositions_def pinnedTeamNodes_def teamNodesArray_def teamNodesMap_def)

theorem layout_two_runs_witness:
  "filteredNodes member_and_loner = filteredNodes member_and_loner_busy \<and>
   member_and_loner \<noteq> member_and_loner_busy \<and>
   rfNodes member_and_loner = rfNodes member_and_loner_busy"
proof -
  have h: "filteredNodes member_and_loner = filteredNodes member_and_loner_busy"
    by (simp add: filteredNodes_def member_and_loner_def member_and_loner_busy_def initialHome_def)
  have "childName member_and_loner \<noteq> childName member_and_loner_busy"
    by (simp add: member_and_loner_def member_and_loner_busy_def initialHome_def)
  then have "member_and_loner \<noteq> member_and_loner_busy" by auto
  with h layout_two_runs [OF h] show ?thesis by simp
qed

end
